theory Spec2Isabelle
  imports Complex_Main "HOL-Library.Word"
begin

section \<open>Chunked binary transfer in \<open>src/util.js\<close>\<close>

text \<open>
  The class \<open>Util\<close> of \<open>src/util.js\<close> holds three operations on binary data:
  \<open>chunk\<close>, which slices a Blob into tagged pieces, \<open>blobToArrayBuffer\<close>, which
  reads a Blob into an ArrayBuffer, and \<open>joinArrayBuffers\<close>, which glues a sequence of
  ArrayBuffers together. They are embedded below, together with the part of JavaScript
  they rely on: numbers with \<open>NaN\<close> and the infinities, the value \<open>undefined\<close> of a
  property that an object does not have, \<open>Blob.slice\<close>, the \<open>Uint8Array\<close>
  constructor and \<open>Uint8Array.set\<close>.
\<close>

subsection \<open>JavaScript numbers and values\<close>

text \<open>
  A JavaScript number is a double. Every number that \<open>chunk\<close> computes from a Blob size
  and an integer chunk size is an integer, \<open>NaN\<close> or an infinity, so the model keeps
  exactly those: \<open>Fin n\<close> is the double that holds the integer \<open>n\<close>. Integers are held
  exactly by a double up to \<open>2 ^ 53\<close> in magnitude, which covers every Blob size; the
  model does not round beyond that. The two zeros of a double are not told apart.
\<close>

datatype jsnum = NaN | PInf | NInf | Fin int

text \<open>A property of the instance holds a number or was never assigned (\<open>undefined\<close>).\<close>

datatype jsval = Undefined | Number jsnum

text \<open>\<open>ToNumber\<close>, applied by the arithmetic operators: \<open>undefined\<close> becomes \<open>NaN\<close>.\<close>

fun ToNumber :: "jsval \<Rightarrow> jsnum" where
  "ToNumber Undefined = NaN"
| "ToNumber (Number x) = x"

text \<open>The operator \<open>+\<close> on numbers.\<close>

fun js_add :: "jsnum \<Rightarrow> jsnum \<Rightarrow> jsnum" where
  "js_add NaN y = NaN"
| "js_add x NaN = NaN"
| "js_add PInf NInf = NaN"
| "js_add NInf PInf = NaN"
| "js_add PInf y = PInf"
| "js_add NInf y = NInf"
| "js_add (Fin a) PInf = PInf"
| "js_add (Fin a) NInf = NInf"
| "js_add (Fin a) (Fin b) = Fin (a + b)"

text \<open>The operator \<open><\<close> on numbers: false as soon as one side is \<open>NaN\<close>.\<close>

fun js_lt :: "jsnum \<Rightarrow> jsnum \<Rightarrow> bool" where
  "js_lt NaN y = False"
| "js_lt x NaN = False"
| "js_lt PInf y = False"
| "js_lt NInf NInf = False"
| "js_lt NInf y = True"
| "js_lt (Fin a) PInf = True"
| "js_lt (Fin a) NInf = False"
| "js_lt (Fin a) (Fin b) = (a < b)"

text \<open>\<open>Math.min\<close> of two numbers: \<open>NaN\<close> as soon as one argument is \<open>NaN\<close>.\<close>

fun Math_min :: "jsnum \<Rightarrow> jsnum \<Rightarrow> jsnum" where
  "Math_min NaN y = NaN"
| "Math_min x NaN = NaN"
| "Math_min x y = (if js_lt y x then y else x)"

text \<open>
  \<open>Math.ceil(x / y)\<close>, the only use \<open>chunk\<close> makes of division. For two integers with a
  non-zero divisor the quotient is a rational and its ceiling is \<open>- ((- a) div b)\<close>
  (\<open>div\<close> on \<open>int\<close> rounds down); a zero divisor gives an infinity, or \<open>NaN\<close> for
  \<open>0 / 0\<close>; a finite number over an infinity is zero.
\<close>

fun Math_ceil_div :: "jsnum \<Rightarrow> jsnum \<Rightarrow> jsnum" where
  "Math_ceil_div NaN y = NaN"
| "Math_ceil_div x NaN = NaN"
| "Math_ceil_div (Fin a) (Fin b) =
     (if b = 0 then (if a = 0 then NaN else if 0 < a then PInf else NInf)
      else Fin (- ((- a) div b)))"
| "Math_ceil_div (Fin a) y = Fin 0"
| "Math_ceil_div x (Fin b) =
     (if (x = PInf) = (0 \<le> b) then PInf else NInf)"
| "Math_ceil_div x y = NaN"

subsection \<open>Blobs\<close>

type_synonym byte = "8 word"

text \<open>A Blob is an immutable sequence of bytes; \<open>blob.size\<close> is its length.\<close>

type_synonym blob = "byte list"

definition size_of :: "blob \<Rightarrow> jsnum" where
  "size_of b = Fin (int (length b))"

text \<open>
  The arguments of \<open>Blob.slice\<close> are declared \<open>[Clamp] long long\<close> in the File API:
  \<open>NaN\<close> becomes 0 and every other number is clamped to the integers of magnitude below
  \<open>2 ^ 53\<close>.
\<close>

fun clamp_long_long :: "jsnum \<Rightarrow> int" where
  "clamp_long_long NaN = 0"
| "clamp_long_long PInf = 2 ^ 53 - 1"
| "clamp_long_long NInf = - (2 ^ 53) + 1"
| "clamp_long_long (Fin n) = min (max n (- (2 ^ 53) + 1)) (2 ^ 53 - 1)"

text \<open>
  \<open>blob.slice(start, end)\<close> as the File API defines it: a negative position counts from
  the end of the Blob, both positions are cut to \<open>[0, size]\<close>, and the result holds the
  bytes from the first position up to the second (none when they cross).
\<close>

definition slice :: "blob \<Rightarrow> jsnum \<Rightarrow> jsnum \<Rightarrow> blob" where
  "slice b start end =
     (let size = int (length b);
          s = clamp_long_long start;
          e = clamp_long_long end;
          relativeStart = (if s < 0 then max (size + s) 0 else min s size);
          relativeEnd = (if e < 0 then max (size + e) 0 else min e size);
          span = max (relativeEnd - relativeStart) 0
      in take (nat span) (drop (nat relativeStart) b))"

subsection \<open>The instance\<close>

text \<open>
  The scalar fields that the constructor assigns, and the two fields that only
  \<open>chunk\<close> mentions: \<open>chunkedMTU\<close> and \<open>chunkedCount\<close>. The private field
  \<open>_logLevel\<close> is \<open>logLevel\<close> here. The fields that hold functions, objects or
  the result of browser detection (\<open>pack\<close>, \<open>unpack\<close>, \<open>LOG_LEVELS\<close>,
  \<open>MESSAGE_TYPES\<close>, \<open>chunkedBrowsers\<close>, \<open>defaultConfig\<close>, \<open>browser\<close>,
  \<open>supports\<close>) are left out: neither \<open>chunk\<close> nor \<open>joinArrayBuffers\<close> reads or
  writes them.
\<close>

record Util =
  CLOUD_HOST :: string
  CLOUD_PORT :: int
  TURN_HOST :: string
  TURN_PORT :: int
  debug :: bool
  maxChunkSize :: int
  reconnectionAttempts :: int
  sendInterval :: int
  logLevel :: int
  chunkedMTU :: jsval
  chunkedCount :: jsval

text \<open>
  The constructor. It assigns \<open>maxChunkSize = 16300\<close>; it assigns neither
  \<open>chunkedMTU\<close> nor \<open>chunkedCount\<close>, so reading them on a new instance gives
  \<open>undefined\<close>.
\<close>

definition constructor :: Util where
  "constructor =
     \<lparr> CLOUD_HOST = ''skyway.io'', CLOUD_PORT = 443,
       TURN_HOST = ''turn.skyway.io'', TURN_PORT = 443,
       debug = False, maxChunkSize = 16300,
       reconnectionAttempts = 2, sendInterval = 1,
       logLevel = 0,
       chunkedMTU = Undefined, chunkedCount = Undefined \<rparr>"

subsection \<open>\<open>chunk\<close>\<close>

text \<open>One element of the array that \<open>chunk\<close> returns.\<close>

record chunk_rec =
  parentMsgId :: jsval
  chunkIndex :: jsnum
  chunkData :: blob
  totalChunks :: jsnum

text \<open>
  The \<open>while\<close> loop of \<open>chunk\<close>. Nothing bounds the number of its iterations when
  \<open>chunkedMTU\<close> is not positive, so it is a partial function: \<open>None\<close> is a loop that
  never ends. The instance is only read inside the loop.
\<close>

partial_function (option) chunk_loop ::
  "Util \<Rightarrow> blob \<Rightarrow> jsnum \<Rightarrow> chunk_rec list \<Rightarrow> jsnum \<Rightarrow> jsnum \<Rightarrow> chunk_rec list option" where
  "chunk_loop this b total' chunks start index =
     (if js_lt start (size_of b) then
        (let end = Math_min (size_of b) (js_add start (ToNumber (chunkedMTU this)));
             blobSlice = slice b start end;
             chunk = \<lparr> parentMsgId = chunkedCount this, chunkIndex = index,
                       chunkData = blobSlice, totalChunks = total' \<rparr>
         in chunk_loop this b total' (chunks @ [chunk]) end (js_add index (Fin 1)))
      else Some chunks)"

declare chunk_loop.simps [code]

text \<open>
  \<open>chunk(blob)\<close>: the array of chunks and the instance after the call, whose
  \<open>chunkedCount\<close> went through \<open>++\<close>.
\<close>

definition chunk :: "Util \<Rightarrow> blob \<Rightarrow> (chunk_rec list \<times> Util) option" where
  "chunk this b =
     (let total' = Math_ceil_div (size_of b) (ToNumber (chunkedMTU this))
      in case chunk_loop this b total' [] (Fin 0) (Fin 0) of
           None \<Rightarrow> None
         | Some chunks \<Rightarrow>
             Some (chunks,
                   this\<lparr>chunkedCount := Number (js_add (ToNumber (chunkedCount this)) (Fin 1))\<rparr>))"

subsection \<open>Blobs and ArrayBuffers as objects\<close>

text \<open>
  \<open>chunk\<close> works on a Blob through \<open>size\<close> and \<open>slice\<close> only, so there a Blob is
  its bytes. \<open>joinArrayBuffers\<close> reads properties of whatever objects its array holds;
  for it an object is a Blob or an ArrayBuffer, each with its bytes.
\<close>

datatype binary = Blob blob | ArrayBuffer "byte list"

text \<open>
  \<open>buffer.byteLength\<close>: an ArrayBuffer has the property; a Blob has \<open>size\<close> and no
  \<open>byteLength\<close>, so reading it gives \<open>undefined\<close>.
\<close>

fun byteLength :: "binary \<Rightarrow> jsval" where
  "byteLength (ArrayBuffer bytes) = Number (Fin (int (length bytes)))"
| "byteLength (Blob b) = Undefined"

subsection \<open>\<open>blobToArrayBuffer\<close>\<close>

text \<open>
  \<open>blobToArrayBuffer(blob, cb)\<close> starts \<open>readAsArrayBuffer\<close> on a new \<open>FileReader\<close>;
  its \<open>load\<close> event hands \<open>cb\<close> an ArrayBuffer with the bytes of the Blob. The
  callback is a continuation here; when the browser runs it is not modelled.
\<close>

definition blobToArrayBuffer :: "blob \<Rightarrow> (binary \<Rightarrow> 'r) \<Rightarrow> 'r" where
  "blobToArrayBuffer b cb = cb (ArrayBuffer b)"

subsection \<open>\<open>joinArrayBuffers\<close>\<close>

datatype error = RangeError

text \<open>
  \<open>new Uint8Array(size)\<close> with a number: the length is \<open>ToIndex(size)\<close>, which takes
  \<open>NaN\<close> to 0 and raises a \<open>RangeError\<close> for a negative or infinite number; the array
  holds zero bytes. The limit of the engine on the length of an array is not modelled.
\<close>

fun new_Uint8Array :: "jsnum \<Rightarrow> error + byte list" where
  "new_Uint8Array NaN = Inr []"
| "new_Uint8Array (Fin n) = (if n < 0 then Inl RangeError else Inr (replicate (nat n) 0))"
| "new_Uint8Array PInf = Inl RangeError"
| "new_Uint8Array NInf = Inl RangeError"

text \<open>
  \<open>new Uint8Array(buffer)\<close> with an object: the bytes of an ArrayBuffer; a Blob is
  neither an ArrayBuffer nor a typed array, it cannot be iterated and has no \<open>length\<close>,
  so the array made from it is empty.
\<close>

fun Uint8Array_of :: "binary \<Rightarrow> byte list" where
  "Uint8Array_of (ArrayBuffer bytes) = bytes"
| "Uint8Array_of (Blob b) = []"

text \<open>
  The copy that \<open>target.set(source, offset)\<close> makes once the offset is an index: a
  \<open>RangeError\<close> when the source does not fit behind the offset, otherwise the bytes of
  the target from the offset on are overwritten by the source.
\<close>

definition set_at :: "byte list \<Rightarrow> byte list \<Rightarrow> nat \<Rightarrow> error + byte list" where
  "set_at target source offset =
     (if length target < offset + length source then Inl RangeError
      else Inr (take offset target @ source @ drop (offset + length source) target))"

text \<open>
  \<open>target.set(source, offset)\<close> on a \<open>Uint8Array\<close>: the offset \<open>NaN\<close> counts as 0, a
  negative or infinite offset raises a \<open>RangeError\<close>.
\<close>

fun Uint8Array_set :: "byte list \<Rightarrow> byte list \<Rightarrow> jsnum \<Rightarrow> error + byte list" where
  "Uint8Array_set target source NaN = set_at target source 0"
| "Uint8Array_set target source (Fin n) =
     (if n < 0 then Inl RangeError else set_at target source (nat n))"
| "Uint8Array_set target source PInf = Inl RangeError"
| "Uint8Array_set target source NInf = Inl RangeError"

text \<open>The \<open>for ... of\<close> loop of \<open>joinArrayBuffers\<close>.\<close>

fun join_loop :: "binary list \<Rightarrow> byte list \<Rightarrow> jsnum \<Rightarrow> error + byte list" where
  "join_loop [] tmpArray currPos = Inr tmpArray"
| "join_loop (buffer # buffers) tmpArray currPos =
     (case Uint8Array_set tmpArray (Uint8Array_of buffer) currPos of
        Inl e \<Rightarrow> Inl e
      | Inr tmpArray' \<Rightarrow>
          join_loop buffers tmpArray' (js_add currPos (ToNumber (byteLength buffer))))"

text \<open>
  \<open>joinArrayBuffers(buffers)\<close>: \<open>reduce\<close> adds up the \<open>byteLength\<close> of the elements,
  \<open>new Uint8Array(size)\<close> is that many zero bytes, the loop copies each element behind
  the previous one, and the result is the ArrayBuffer of the array.
\<close>

definition joinArrayBuffers :: "binary list \<Rightarrow> error + binary" where
  "joinArrayBuffers buffers =
     (let size = foldl (\<lambda>sum buffer. js_add sum (ToNumber (byteLength buffer))) (Fin 0) buffers
      in case new_Uint8Array size of
           Inl e \<Rightarrow> Inl e
         | Inr tmpArray \<Rightarrow>
             (case join_loop buffers tmpArray (Fin 0) of
                Inl e \<Rightarrow> Inl e
              | Inr tmpArray' \<Rightarrow> Inr (ArrayBuffer tmpArray')))"

section \<open>Properties\<close>

subsection \<open>Auxiliary facts\<close>

lemma foldl_byteLength:
  "foldl (\<lambda>sum buffer. js_add sum (ToNumber (byteLength buffer))) (Fin (int n))
     (map ArrayBuffer buffers) = Fin (int (n + length (concat buffers)))"
proof (induction buffers arbitrary: n)
  case Nil
  then show ?case by simp
next
  case (Cons buffer buffers)
  have "js_add (Fin (int n)) (ToNumber (byteLength (ArrayBuffer buffer))) =
        Fin (int (n + length buffer))"
    by simp
  then show ?case
    by (simp only: list.map foldl_Cons Cons.IH) (simp add: add.assoc)
qed

lemma join_loop_concat:
  "currPos + length (concat buffers) \<le> length tmpArray \<Longrightarrow>
   join_loop (map ArrayBuffer buffers) tmpArray (Fin (int currPos)) =
     Inr (take currPos tmpArray @ concat buffers
          @ drop (currPos + length (concat buffers)) tmpArray)"
proof (induction buffers arbitrary: tmpArray currPos)
  case Nil
  then show ?case by simp
next
  case (Cons buffer buffers)
  let ?t = "take currPos tmpArray @ buffer @ drop (currPos + length buffer) tmpArray"
  from Cons.prems have fit: "currPos + length buffer \<le> length tmpArray"
    and len: "length ?t = length tmpArray" by simp_all
  from fit have step: "Uint8Array_set tmpArray buffer (Fin (int currPos)) = Inr ?t"
    by (simp add: set_at_def)
  have next_pos: "js_add (Fin (int currPos)) (ToNumber (byteLength (ArrayBuffer buffer))) =
                  Fin (int (currPos + length buffer))"
    by simp
  from Cons.prems len have "(currPos + length buffer) + length (concat buffers) \<le> length ?t"
    by simp
  from Cons.IH [OF this] fit show ?case
    by (simp only: list.map join_loop.simps Uint8Array_of.simps step next_pos sum.case)
       (simp add: ac_simps)
qed

lemma joinArrayBuffers_concat:
  "joinArrayBuffers (map ArrayBuffer buffers) = Inr (ArrayBuffer (concat buffers))"
  using foldl_byteLength [of 0 buffers]
    join_loop_concat [of 0 buffers "replicate (length (concat buffers)) 0"]
  by (simp add: joinArrayBuffers_def)

text \<open>
  An array of Blobs: no element has a \<open>byteLength\<close>, the sum is \<open>NaN\<close> (or 0 for no
  element at all), the array has length 0 and nothing is copied into it.
\<close>

lemma foldl_byteLength_Blob:
  "foldl (\<lambda>sum buffer. js_add sum (ToNumber (byteLength buffer))) start (map Blob blobs) =
     (if blobs = [] then start else NaN)"
proof (induction blobs arbitrary: start)
  case Nil
  then show ?case by simp
next
  case (Cons b blobs)
  have "js_add start NaN = NaN" by (cases start) simp_all
  with Cons show ?case by simp
qed

lemma join_loop_Blob:
  "currPos = Fin 0 \<or> currPos = NaN \<Longrightarrow> join_loop (map Blob blobs) [] currPos = Inr []"
proof (induction blobs arbitrary: currPos)
  case Nil
  then show ?case by simp
next
  case (Cons b blobs)
  from Cons.prems have "Uint8Array_set [] [] currPos = Inr []"
    and "js_add currPos NaN = NaN"
    by (auto simp: set_at_def)
  with Cons.IH [of NaN] show ?case by simp
qed

lemma joinArrayBuffers_Blob: "joinArrayBuffers (map Blob blobs) = Inr (ArrayBuffer [])"
  by (simp add: joinArrayBuffers_def foldl_byteLength_Blob join_loop_Blob)

lemma slice_window:
  assumes "a \<le> e" "e \<le> length b" "length b < 2 ^ 53"
  shows "slice b (Fin (int a)) (Fin (int e)) = take (e - a) (drop a b)"
proof -
  have "int a < 2 ^ 53" "int e < 2 ^ 53" using assms by simp_all
  then show ?thesis using assms
    by (simp add: slice_def Let_def min_def max_def nat_diff_distrib')
qed

lemma windows_count_step:
  fixes a s n :: nat
  assumes "0 < s" "a < n"
  shows "(n - a + s - 1) div s = Suc ((n - min n (a + s) + s - 1) div s)"
proof (cases "a + s \<le> n")
  case True
  define r where "r = n - (a + s)"
  from True have n: "n = a + s + r" by (simp add: r_def)
  have A: "n - a + s - 1 = (r + s - 1) + s" using assms by (simp add: n)
  have B: "n - min n (a + s) + s - 1 = r + s - 1" by (simp add: n)
  show ?thesis unfolding A B
    by (subst div_add_self2) (use assms in simp_all)
next
  case False
  define d where "d = n - a"
  from False assms have d: "0 < d" "d < s" and m: "min n (a + s) = n" by (simp_all add: d_def)
  have "(d + s - 1) div s = 1"
    using d by (intro div_nat_eqI) simp_all
  with d show ?thesis by (simp add: m d_def [symmetric])
qed

lemma chunk_loop_windows:
  assumes mtu: "chunkedMTU this = Number (Fin (int s))" and pos: "0 < s"
  shows "a \<le> length b \<Longrightarrow>
    chunk_loop this b t chunks (Fin (int a)) (Fin i) =
      Some (chunks @ map (\<lambda>k. \<lparr> parentMsgId = chunkedCount this, chunkIndex = Fin (i + int k),
                                 chunkData = slice b (Fin (int (a + k * s)))
                                               (Fin (int (min (length b) (a + k * s + s)))),
                                 totalChunks = t \<rparr>)
                         [0..<(length b - a + s - 1) div s])"
proof (induction "length b - a" arbitrary: a chunks i rule: less_induct)
  case less
  show ?case
  proof (cases "a < length b")
    case False
    with less.prems have "a = length b" by simp
    with pos show ?thesis
      by (subst chunk_loop.simps) (simp add: size_of_def)
  next
    case True
    let ?e = "min (length b) (a + s)"
    let ?c = "\<lparr> parentMsgId = chunkedCount this, chunkIndex = Fin i,
                chunkData = slice b (Fin (int a)) (Fin (int ?e)), totalChunks = t \<rparr>"
    let ?m = "(length b - ?e + s - 1) div s"
    have e: "Math_min (size_of b) (js_add (Fin (int a)) (ToNumber (chunkedMTU this))) = Fin (int ?e)"
      using mtu by (simp add: size_of_def min_def)
    have unfold: "chunk_loop this b t chunks (Fin (int a)) (Fin i) =
                  chunk_loop this b t (chunks @ [?c]) (Fin (int ?e)) (Fin (i + 1))"
      using True by (subst chunk_loop.simps) (simp add: e [unfolded size_of_def] size_of_def Let_def)
    have smaller: "length b - ?e < length b - a" and le: "?e \<le> length b"
      using True pos by simp_all
    have count: "(length b - a + s - 1) div s = Suc ?m"
      using pos True by (rule windows_count_step)
    have shift: "?m \<noteq> 0 \<Longrightarrow> ?e = a + s"
      using pos by (auto simp: min_def)
    have rest: "map (\<lambda>k. \<lparr> parentMsgId = chunkedCount this, chunkIndex = Fin (i + 1 + int k),
                            chunkData = slice b (Fin (int (?e + k * s)))
                                          (Fin (int (min (length b) (?e + k * s + s)))),
                            totalChunks = t \<rparr>) [0..<?m]
              = map (\<lambda>k. \<lparr> parentMsgId = chunkedCount this, chunkIndex = Fin (i + int k),
                            chunkData = slice b (Fin (int (a + k * s)))
                                          (Fin (int (min (length b) (a + k * s + s)))),
                            totalChunks = t \<rparr>) (map Suc [0..<?m])"
    proof (cases "?m = 0")
      case True
      then show ?thesis by simp
    next
      case False
      then have "?e = a + s" by (rule shift)
      then show ?thesis by (simp add: algebra_simps)
    qed
    show ?thesis
      unfolding unfold less.hyps [OF smaller le] count rest
      by (simp add: upt_conv_Cons map_Suc_upt del: upt_Suc)
  qed
qed

lemma ceil_windows:
  fixes n s :: nat
  assumes "0 < s"
  shows "\<lceil>real n / real s\<rceil> = int ((n + s - 1) div s)"
proof (rule ceiling_unique)
  let ?q = "(n + s - 1) div s"
  have "?q * s \<le> n + s - 1" by (rule div_times_less_eq_dividend)
  with assms have "?q * s < n + s" by arith
  then have lo: "real ?q * real s < real n + real s"
    by (metis of_nat_add of_nat_less_iff of_nat_mult)
  have "n + s - 1 < s + ?q * s" using assms by (rule dividend_less_div_times)
  then have "n \<le> ?q * s" by arith
  then have up: "real n \<le> real ?q * real s"
    by (metis of_nat_le_iff of_nat_mult)
  show "of_int (int ?q) - 1 < real n / real s"
    using lo assms by (simp add: field_simps)
  show "real n / real s \<le> of_int (int ?q)"
    using up assms by (simp add: field_simps)
qed

lemma Math_ceil_div_nat:
  "0 < s \<Longrightarrow> Math_ceil_div (Fin (int n)) (Fin (int s)) = Fin \<lceil>real n / real s\<rceil>"
  using ceiling_divide_eq_div [of "int n" "int s", where ?'a = real] by simp

lemma concat_windows:
  "0 < s \<Longrightarrow> concat (map (\<lambda>k. take s (drop (k * s) b)) [0..<m]) = take (m * s) b"
proof (induction m)
  case 0
  then show ?case by simp
next
  case (Suc m)
  have "take (m * s) b @ take s (drop (m * s) b) = take (m * s + s) b"
    by (simp add: take_add)
  with Suc show ?case by (simp add: ac_simps)
qed


lemma slice_full_window:
  assumes "k * s < length b" "length b < 2 ^ 53"
  shows "slice b (Fin (int (k * s))) (Fin (int (min (length b) (k * s + s)))) =
         take s (drop (k * s) b)"
proof -
  have "slice b (Fin (int (k * s))) (Fin (int (min (length b) (k * s + s)))) =
        take (min (length b) (k * s + s) - k * s) (drop (k * s) b)"
    using assms by (intro slice_window) simp_all
  also have "min (length b) (k * s + s) - k * s = min (length (drop (k * s) b)) s"
    using assms(1) by (simp add: min_def) arith
  also have "take (min (length (drop (k * s) b)) s) (drop (k * s) b) = take s (drop (k * s) b)"
    by (simp add: min_def)
  finally show ?thesis .
qed

lemma window_index_bound:
  fixes n s k :: nat
  assumes "0 < s" "k < (n + s - 1) div s"
  shows "k * s < n"
proof -
  from assms(2) have "Suc k \<le> (n + s - 1) div s" by simp
  then have "Suc k * s \<le> (n + s - 1) div s * s" by (rule mult_le_mono1)
  also have "\<dots> \<le> n + s - 1" by (rule div_times_less_eq_dividend)
  finally show ?thesis using assms(1) by simp
qed

lemma window_count_covers:
  fixes n s :: nat
  assumes "0 < s"
  shows "n \<le> (n + s - 1) div s * s"
proof -
  have "n + s - 1 < s + (n + s - 1) div s * s" using assms by (rule dividend_less_div_times)
  then show ?thesis by arith
qed

lemma chunk_windows:
  assumes "chunkedMTU this = Number (Fin (int s))" "0 < s"
  shows "chunk this b =
    Some (map (\<lambda>k. \<lparr> parentMsgId = chunkedCount this, chunkIndex = Fin (int k),
                      chunkData = slice b (Fin (int (k * s)))
                                    (Fin (int (min (length b) (k * s + s)))),
                      totalChunks = Fin \<lceil>real (length b) / real s\<rceil> \<rparr>)
              [0..<(length b + s - 1) div s],
          this\<lparr>chunkedCount := Number (js_add (ToNumber (chunkedCount this)) (Fin 1))\<rparr>)"
proof -
  have total: "Math_ceil_div (size_of b) (ToNumber (chunkedMTU this)) =
               Fin \<lceil>real (length b) / real s\<rceil>"
    using assms by (simp only: size_of_def ToNumber.simps Math_ceil_div_nat)
  have loop: "chunk_loop this b t [] (Fin 0) (Fin 0) =
    Some (map (\<lambda>k. \<lparr> parentMsgId = chunkedCount this, chunkIndex = Fin (int k),
                      chunkData = slice b (Fin (int (k * s)))
                                    (Fin (int (min (length b) (k * s + s)))),
                      totalChunks = t \<rparr>)
              [0..<(length b + s - 1) div s])" for t
    using chunk_loop_windows [OF assms, of 0 b t "[]" 0] by simp
  show ?thesis
    by (simp only: chunk_def total Let_def loop option.case)
qed

lemma chunk_loop_diverges:
  assumes mtu: "chunkedMTU this = Number (Fin s)" and neg: "s \<le> 0" and ne: "b \<noteq> []"
    and start: "a \<le> 0"
  shows "chunk_loop this b t chunks (Fin a) index = None"
proof (rule ccontr)
  assume "chunk_loop this b t chunks (Fin a) index \<noteq> None"
  then obtain y where ret: "chunk_loop this b t chunks (Fin a) index = Some y" by blast
  have "\<not> (this = this \<and> b = b \<and> (\<exists>a'\<le>0. Fin a = Fin a'))"
  proof (rule chunk_loop.raw_induct
      [where P = "\<lambda>th bb tt cs st ix y. \<not> (th = this \<and> bb = b \<and> (\<exists>a\<le>0. st = Fin a))",
       OF _ ret], goal_cases)
    case (1 f th bb tt cs st ix y)
    show ?case
    proof
      assume "th = this \<and> bb = b \<and> (\<exists>a\<le>0. st = Fin a)"
      then obtain a where a: "a \<le> 0" "st = Fin a" and th: "th = this" and bb: "bb = b"
        by blast
      from ne have n: "1 \<le> int (length b)" by (cases b) simp_all
      from a n neg have lt: "a < int (length b)" "a + s < int (length b)" by linarith+
      have enter: "js_lt st (size_of b)"
        unfolding a size_of_def js_lt.simps by (rule lt)
      have e: "Math_min (size_of b) (js_add st (ToNumber (chunkedMTU this))) = Fin (a + s)"
        unfolding a size_of_def mtu using lt by simp
      have "f this b tt
              (cs @ [\<lparr> parentMsgId = chunkedCount this, chunkIndex = ix,
                        chunkData = slice b st (Fin (a + s)), totalChunks = tt \<rparr>])
              (Fin (a + s)) (js_add ix (Fin 1)) = Some y"
        using 1(2) unfolding th bb by (simp only: enter e if_True Let_def)
      from 1(1) [OF this] a neg show False by simp
    qed
  qed
  with start show False by blast
qed

lemma chunk_windows_data:
  assumes mtu: "chunkedMTU this = Number (Fin (int s))" and pos: "0 < s"
    and bound: "length b < 2 ^ 53"
  shows "chunk this b =
    Some (map (\<lambda>k. \<lparr> parentMsgId = chunkedCount this, chunkIndex = Fin (int k),
                      chunkData = take s (drop (k * s) b),
                      totalChunks = Fin \<lceil>real (length b) / real s\<rceil> \<rparr>)
              [0..<(length b + s - 1) div s],
          this\<lparr>chunkedCount := Number (js_add (ToNumber (chunkedCount this)) (Fin 1))\<rparr>)"
proof -
  have "slice b (Fin (int (k * s))) (Fin (int (min (length b) (k * s + s)))) =
        take s (drop (k * s) b)" if "k \<in> set [0..<(length b + s - 1) div s]" for k
  proof -
    from that have "k < (length b + s - 1) div s" by simp
    with pos have "k * s < length b" by (rule window_index_bound)
    then show ?thesis using bound by (rule slice_full_window)
  qed
  then have "map (\<lambda>k. \<lparr> parentMsgId = chunkedCount this, chunkIndex = Fin (int k),
                      chunkData = slice b (Fin (int (k * s)))
                                    (Fin (int (min (length b) (k * s + s)))),
                      totalChunks = Fin \<lceil>real (length b) / real s\<rceil> \<rparr>)
              [0..<(length b + s - 1) div s] =
             map (\<lambda>k. \<lparr> parentMsgId = chunkedCount this, chunkIndex = Fin (int k),
                      chunkData = take s (drop (k * s) b),
                      totalChunks = Fin \<lceil>real (length b) / real s\<rceil> \<rparr>)
              [0..<(length b + s - 1) div s]"
    by (intro map_cong) simp_all
  with chunk_windows [OF mtu pos, of b] show ?thesis by (simp only:)
qed

text \<open>
  When the caller has assigned an integer to \<open>chunkedCount\<close>, every fragment of a call
  carries it and the call leaves the next integer behind.
\<close>

lemma chunk_parentMsgId_step:
  assumes "chunkedMTU this = Number (Fin (int s))" and "0 < s"
    and "chunkedCount this = Number (Fin n)"
  shows "\<exists>chunks this'. chunk this P = Some (chunks, this') \<and>
           (\<forall>c \<in> set chunks. parentMsgId c = Number (Fin n)) \<and>
           chunkedCount this' = Number (Fin (n + 1))"
  by (auto simp add: chunk_windows [OF assms(1,2)] assms(3))

subsection \<open>The fragments of one call\<close>

text \<open>
  In the theorems below the fragment size is what \<open>chunk\<close> reads from the instance:
  \<open>chunkedMTU\<close> holds the positive integer \<open>s\<close>. Where the bytes of the slices
  matter, the payload is shorter than \<open>2 ^ 53\<close> bytes, as the size of every Blob is:
  \<open>Blob.slice\<close> clamps its arguments there.
\<close>

text \<open>
  Claim C1 says that joining the \<open>chunkData\<close> of the fragments with
  \<open>joinArrayBuffers\<close> gives back the payload. The \<open>chunkData\<close> of a fragment is a
  Blob, the result of \<open>blob.slice\<close>, and \<open>joinArrayBuffers\<close> handed Blobs finds no
  \<open>byteLength\<close>: for the payload 1, 2, 3 cut at size 2, the two fragments hold the
  Blobs 1, 2 and 3, and joining them gives the empty ArrayBuffer, not the payload.
\<close>

theorem chunk_join_blobs:
  "chunk (constructor\<lparr>chunkedMTU := Number (Fin 2), chunkedCount := Number (Fin 0)\<rparr>) [1, 2, 3] =
     Some ([\<lparr> parentMsgId = Number (Fin 0), chunkIndex = Fin 0, chunkData = [1, 2],
              totalChunks = Fin 2 \<rparr>,
            \<lparr> parentMsgId = Number (Fin 0), chunkIndex = Fin 1, chunkData = [3],
              totalChunks = Fin 2 \<rparr>],
           constructor\<lparr>chunkedMTU := Number (Fin 2), chunkedCount := Number (Fin 1)\<rparr>) \<and>
   joinArrayBuffers [Blob [1, 2], Blob [3]] = Inr (ArrayBuffer []) \<and>
   joinArrayBuffers [Blob [1, 2], Blob [3]] \<noteq> Inr (ArrayBuffer [1, 2, 3])"
  by (simp add: chunk_def chunk_loop.simps constructor_def size_of_def slice_def Let_def
        joinArrayBuffers_def set_at_def)

text \<open>
  Claim C1 as the code has it. For every payload \<open>P\<close> and every fragment size \<open>s > 0\<close>,
  \<open>chunk\<close> returns its fragments in ascending \<open>chunkIndex\<close> order (0, 1, 2, ...);
  once the \<open>chunkData\<close> of each fragment has been read into an ArrayBuffer by
  \<open>blobToArrayBuffer\<close>, \<open>joinArrayBuffers\<close> applied to these buffers in that order
  gives back \<open>P\<close> exactly: no byte is added, dropped or changed.
\<close>

theorem chunk_join_roundtrip:
  assumes "chunkedMTU this = Number (Fin (int s))" and "0 < s" and "length P < 2 ^ 53"
  shows "\<exists>chunks this'. chunk this P = Some (chunks, this') \<and>
           map chunkIndex chunks = map (\<lambda>k. Fin (int k)) [0..<length chunks] \<and>
           joinArrayBuffers
             (map (\<lambda>c. blobToArrayBuffer (chunkData c) (\<lambda>result. result)) chunks) =
           Inr (ArrayBuffer P)"
proof -
  let ?m = "(length P + s - 1) div s"
  have "concat (map (\<lambda>k. take s (drop (k * s) P)) [0..<?m]) = take (?m * s) P"
    using assms(2) by (rule concat_windows)
  also have "\<dots> = P" using window_count_covers [OF assms(2), of "length P"] by simp
  finally have whole: "concat (map (\<lambda>k. take s (drop (k * s) P)) [0..<?m]) = P" .
  have "joinArrayBuffers (map ArrayBuffer (map (\<lambda>k. take s (drop (k * s) P)) [0..<?m])) =
        Inr (ArrayBuffer P)"
    by (simp only: joinArrayBuffers_concat whole)
  then show ?thesis
    by (simp add: chunk_windows_data [OF assms] blobToArrayBuffer_def comp_def)
qed

theorem chunk_join_roundtrip_witness:
  "\<exists>chunks this'.
     chunk (constructor\<lparr>chunkedMTU := Number (Fin 2)\<rparr>) [1, 2, 3, 4, 5] = Some (chunks, this') \<and>
     map chunkIndex chunks = map (\<lambda>k. Fin (int k)) [0..<length chunks] \<and>
     joinArrayBuffers
       (map (\<lambda>c. blobToArrayBuffer (chunkData c) (\<lambda>result. result)) chunks) =
     Inr (ArrayBuffer [1, 2, 3, 4, 5])"
  using chunk_join_roundtrip [of "constructor\<lparr>chunkedMTU := Number (Fin 2)\<rparr>" 2 "[1, 2, 3, 4, 5]"]
  by simp

text \<open>
  Claim C2. For every payload \<open>P\<close> and every fragment size \<open>s > 0\<close>, the number of
  fragments that \<open>chunk\<close> returns is the ceiling of \<open>length P / s\<close> when \<open>P\<close> is not
  empty, and no fragment at all is returned for the empty payload.
\<close>

theorem chunk_number_of_fragments:
  assumes "chunkedMTU this = Number (Fin (int s))" and "0 < s"
  shows "\<exists>chunks this'. chunk this P = Some (chunks, this') \<and>
           (P \<noteq> [] \<longrightarrow> int (length chunks) = \<lceil>real (length P) / real s\<rceil>) \<and>
           (P = [] \<longrightarrow> chunks = [])"
  using assms(2) by (simp add: chunk_windows [OF assms] ceil_windows)

theorem chunk_number_of_fragments_witness:
  "(\<exists>chunks this'.
      chunk (constructor\<lparr>chunkedMTU := Number (Fin 2)\<rparr>) [1, 2, 3, 4, 5] = Some (chunks, this') \<and>
      int (length chunks) = \<lceil>real (length [1, 2, 3, 4, 5 :: byte]) / real (2 :: nat)\<rceil>) \<and>
   (\<exists>chunks this'.
      chunk (constructor\<lparr>chunkedMTU := Number (Fin 2)\<rparr>) [] = Some (chunks, this') \<and>
      chunks = [])"
  using chunk_number_of_fragments [of "constructor\<lparr>chunkedMTU := Number (Fin 2)\<rparr>" 2 "[1, 2, 3, 4, 5]"]
    chunk_number_of_fragments [of "constructor\<lparr>chunkedMTU := Number (Fin 2)\<rparr>" 2 "[]"]
  by simp

text \<open>
  Claim C3. For every payload \<open>P\<close> and every fragment size \<open>s > 0\<close>, the fragment at
  position \<open>k\<close> has \<open>chunkIndex = k\<close> and \<open>totalChunks\<close> equal to the number of
  fragments; its data has at most \<open>s\<close> bytes, and exactly \<open>s\<close> bytes unless it is the
  last one (\<open>chunkIndex = totalChunks - 1\<close>). For 37 bytes and \<open>s = 16\<close> the data
  lengths are 16, 16, 5 and \<open>totalChunks\<close> is 3.
\<close>

theorem chunk_data_lengths:
  assumes "chunkedMTU this = Number (Fin (int s))" and "0 < s" and "length P < 2 ^ 53"
  shows "\<exists>chunks this'. chunk this P = Some (chunks, this') \<and>
           (\<forall>k < length chunks.
              chunkIndex (chunks ! k) = Fin (int k) \<and>
              totalChunks (chunks ! k) = Fin (int (length chunks)) \<and>
              length (chunkData (chunks ! k)) \<le> s \<and>
              (int k \<noteq> int (length chunks) - 1 \<longrightarrow> length (chunkData (chunks ! k)) = s)) \<and>
           (length P = 37 \<and> s = 16 \<longrightarrow>
              map (\<lambda>c. length (chunkData c)) chunks = [16, 16, 5] \<and>
              map totalChunks chunks = [Fin 3, Fin 3, Fin 3])"
proof -
  let ?m = "(length P + s - 1) div s"
  have full: "length (take s (drop (k * s) P)) = s" if "k < ?m" "int k \<noteq> int ?m - 1" for k
  proof -
    from that have "Suc k < ?m" by linarith
    with assms(2) have "Suc k * s < length P" by (rule window_index_bound)
    then show ?thesis by simp
  qed
  have example: "map (\<lambda>c. length (chunkData c))
                   (map (\<lambda>k. \<lparr> parentMsgId = chunkedCount this, chunkIndex = Fin (int k),
                                  chunkData = take s (drop (k * s) P),
                                  totalChunks = Fin (int ?m) \<rparr>) [0..<?m]) = [16, 16, 5] \<and>
                 map totalChunks
                   (map (\<lambda>k. \<lparr> parentMsgId = chunkedCount this, chunkIndex = Fin (int k),
                                  chunkData = take s (drop (k * s) P),
                                  totalChunks = Fin (int ?m) \<rparr>) [0..<?m]) = [Fin 3, Fin 3, Fin 3]"
    if "length P = 37" "s = 16"
  proof -
    have "[0..<(37 + 16 - 1) div (16 :: nat)] = [0, 1, 2]" by (simp add: upt_rec)
    with that show ?thesis by simp
  qed
  show ?thesis
    using full example
    by (simp add: chunk_windows_data [OF assms] ceil_windows [OF assms(2)])
qed

theorem chunk_data_lengths_witness:
  "\<exists>chunks this'.
     chunk (constructor\<lparr>chunkedMTU := Number (Fin 16)\<rparr>) (replicate 37 0) = Some (chunks, this') \<and>
     map chunkIndex chunks = [Fin 0, Fin 1, Fin 2] \<and>
     length (chunkData (chunks ! 0)) = 16 \<and>
     length (chunkData (chunks ! 2)) \<le> 16 \<and>
     map (\<lambda>c. length (chunkData c)) chunks = [16, 16, 5] \<and>
     map totalChunks chunks = [Fin 3, Fin 3, Fin 3]"
proof -
  from chunk_data_lengths [of "constructor\<lparr>chunkedMTU := Number (Fin 16)\<rparr>" 16 "replicate 37 0"]
  obtain chunks this' where
    ret: "chunk (constructor\<lparr>chunkedMTU := Number (Fin 16)\<rparr>) (replicate 37 0) = Some (chunks, this')"
    and each: "\<forall>k < length chunks.
        chunkIndex (chunks ! k) = Fin (int k) \<and>
        totalChunks (chunks ! k) = Fin (int (length chunks)) \<and>
        length (chunkData (chunks ! k)) \<le> 16 \<and>
        (int k \<noteq> int (length chunks) - 1 \<longrightarrow> length (chunkData (chunks ! k)) = 16)"
    and lens: "map (\<lambda>c. length (chunkData c)) chunks = [16, 16, 5]"
    and tots: "map totalChunks chunks = [Fin 3, Fin 3, Fin 3]"
    by auto
  from lens have n: "length chunks = 3" by (metis length_map length_Cons list.size(3) numeral_3_eq_3)
  then obtain c0 c1 c2 where cs: "chunks = [c0, c1, c2]"
    by (auto simp: numeral_3_eq_3 length_Suc_conv)
  from each n have "chunkIndex (chunks ! 0) = Fin 0" "chunkIndex (chunks ! 1) = Fin 1"
    "chunkIndex (chunks ! 2) = Fin 2" "length (chunkData (chunks ! 0)) = 16"
    "length (chunkData (chunks ! 2)) \<le> 16"
    by auto
  with ret lens tots show ?thesis by (auto simp: cs)
qed

text \<open>
  Claim C4. For every payload \<open>P\<close> and every fragment size \<open>s > 0\<close>, every fragment of
  one call carries the same \<open>totalChunks\<close>, the ceiling of \<open>length P / s\<close>, and that is
  the number of fragments the call returns.
\<close>

theorem chunk_totalChunks:
  assumes "chunkedMTU this = Number (Fin (int s))" and "0 < s"
  shows "\<exists>chunks this'. chunk this P = Some (chunks, this') \<and>
           (\<forall>c \<in> set chunks. totalChunks c = Fin \<lceil>real (length P) / real s\<rceil>) \<and>
           int (length chunks) = \<lceil>real (length P) / real s\<rceil>"
  by (auto simp add: chunk_windows [OF assms] ceil_windows [OF assms(2)])

theorem chunk_totalChunks_witness:
  "\<exists>chunks this'.
     chunk (constructor\<lparr>chunkedMTU := Number (Fin 2)\<rparr>) [1, 2, 3, 4, 5] = Some (chunks, this') \<and>
     map totalChunks chunks = [Fin 3, Fin 3, Fin 3] \<and> length chunks = 3"
proof -
  have three: "\<lceil>real (length [1, 2, 3, 4, 5 :: byte]) / real (2 :: nat)\<rceil> = 3"
    by (simp add: ceil_windows)
  from chunk_totalChunks [of "constructor\<lparr>chunkedMTU := Number (Fin 2)\<rparr>" 2 "[1, 2, 3, 4, 5]"]
  obtain chunks this' where
    ret: "chunk (constructor\<lparr>chunkedMTU := Number (Fin 2)\<rparr>) [1, 2, 3, 4, 5] = Some (chunks, this')"
    and tot: "\<forall>c \<in> set chunks. totalChunks c = Fin 3" and n: "length chunks = 3"
    unfolding three by auto
  from n obtain c0 c1 c2 where cs: "chunks = [c0, c1, c2]"
    by (auto simp: numeral_3_eq_3 length_Suc_conv)
  with ret tot show ?thesis by auto
qed



text \<open>
  Claim C10. A call of \<open>chunk\<close> that returns leaves an instance that differs from the
  one before the call in \<open>chunkedCount\<close> only: \<open>chunkedMTU\<close>, \<open>maxChunkSize\<close>,
  the log level and the other fields are as before. The payload is a Blob, which has no
  operation that changes it; \<open>chunk\<close> only reads its \<open>size\<close> and takes slices.
\<close>

theorem chunk_frame:
  assumes "chunk this P = Some (chunks, this')"
  shows "this' = this\<lparr>chunkedCount := chunkedCount this'\<rparr> \<and>
         chunkedMTU this' = chunkedMTU this \<and> maxChunkSize this' = maxChunkSize this \<and>
         logLevel this' = logLevel this"
  using assms by (auto simp add: chunk_def Let_def split: option.splits)

theorem chunk_frame_witness:
  "\<exists>chunks this'. chunk constructor [1] = Some (chunks, this') \<and>
     this' = constructor\<lparr>chunkedCount := chunkedCount this'\<rparr> \<and>
     chunkedMTU this' = Undefined \<and> maxChunkSize this' = 16300 \<and> logLevel this' = 0"
proof -
  have ret: "chunk constructor [1] =
    Some ([\<lparr> parentMsgId = Undefined, chunkIndex = Fin 0, chunkData = [], totalChunks = NaN \<rparr>],
          constructor\<lparr>chunkedCount := Number NaN\<rparr>)"
    by (simp add: chunk_def chunk_loop.simps constructor_def size_of_def slice_def Let_def)
  from chunk_frame [OF ret] ret show ?thesis
    by (simp add: constructor_def)
qed

subsection \<open>\<open>joinArrayBuffers\<close>\<close>

text \<open>
  Claim C7. For every sequence of ArrayBuffers, the empty one included,
  \<open>joinArrayBuffers\<close> returns the ArrayBuffer that holds the concatenation of the
  buffers in the given order, and the length of the result is the sum of the lengths of
  the buffers. No \<open>RangeError\<close> occurs.
\<close>

theorem joinArrayBuffers_correct:
  "\<exists>joined. joinArrayBuffers (map ArrayBuffer buffers) = Inr (ArrayBuffer joined) \<and>
             joined = concat buffers \<and>
             length joined = sum_list (map length buffers)"
  by (simp add: joinArrayBuffers_concat length_concat)

subsection \<open>A new instance\<close>

text \<open>
  Claim C5 says that a call of \<open>chunk\<close> on a new instance cuts the payload into windows
  of 16300 bytes. The constructor stores 16300 in \<open>maxChunkSize\<close>, while \<open>chunk\<close>
  reads \<open>chunkedMTU\<close>, which no line of the class assigns. On a new instance the window
  end is \<open>Math.min(size, 0 + undefined) = NaN\<close>: a payload of one byte comes back as one
  fragment without data, with \<open>totalChunks = NaN\<close>, and the loop stops because
  \<open>NaN < size\<close> is false.
\<close>

theorem chunk_new_instance:
  "maxChunkSize constructor = 16300 \<and> chunkedMTU constructor = Undefined \<and>
   chunk constructor [1] =
    Some ([\<lparr> parentMsgId = Undefined, chunkIndex = Fin 0, chunkData = [], totalChunks = NaN \<rparr>],
          constructor\<lparr>chunkedCount := Number NaN\<rparr>)"
  by (simp add: chunk_def chunk_loop.simps constructor_def size_of_def slice_def Let_def)

text \<open>
  Claim C6 says that the message ids of successive calls are 0, 1, 2, ... The constructor
  does not assign \<open>chunkedCount\<close> either. Even when the caller has assigned
  \<open>chunkedMTU\<close>, the fragments of the first call on a new instance carry
  \<open>parentMsgId = undefined\<close>, \<open>undefined++\<close> leaves \<open>NaN\<close> in the counter, and
  the fragments of every later call carry \<open>NaN\<close>, which \<open>++\<close> leaves as it is.
\<close>

theorem chunk_ids_new_instance:
  "chunkedCount constructor = Undefined \<and>
   chunk (constructor\<lparr>chunkedMTU := Number (Fin 16300)\<rparr>) [1] =
    Some ([\<lparr> parentMsgId = Undefined, chunkIndex = Fin 0, chunkData = [1], totalChunks = Fin 1 \<rparr>],
          constructor\<lparr>chunkedMTU := Number (Fin 16300), chunkedCount := Number NaN\<rparr>) \<and>
   chunk (constructor\<lparr>chunkedMTU := Number (Fin 16300), chunkedCount := Number NaN\<rparr>) [1] =
    Some ([\<lparr> parentMsgId = Number NaN, chunkIndex = Fin 0, chunkData = [1], totalChunks = Fin 1 \<rparr>],
          constructor\<lparr>chunkedMTU := Number (Fin 16300), chunkedCount := Number NaN\<rparr>)"
  by (simp add: chunk_def chunk_loop.simps constructor_def size_of_def slice_def Let_def)

subsection \<open>A fragment size that is not positive\<close>

text \<open>
  Claim C8 says that a fragment size \<open>\<le> 0\<close> makes the call fail with a configuration
  error. \<open>chunk\<close> has no check of \<open>chunkedMTU\<close> and no \<open>throw\<close>. With fragment
  size 0 and the empty payload the call returns normally: the empty array, and the
  counter has moved on.
\<close>

theorem chunk_size_zero_returns:
  "chunk (constructor\<lparr>chunkedMTU := Number (Fin 0), chunkedCount := Number (Fin 0)\<rparr>) [] =
     Some ([], constructor\<lparr>chunkedMTU := Number (Fin 0), chunkedCount := Number (Fin 1)\<rparr>)"
  by (simp add: chunk_def chunk_loop.simps constructor_def size_of_def Let_def)

text \<open>
  Claim C8 as the code has it. With a fragment size \<open>s \<le> 0\<close> no error is raised and
  the size is not replaced by another one: on the empty payload \<open>chunk\<close> returns the
  empty array and increments the counter; on any other payload the window start never
  gets past 0, the loop never ends and the call does not return.
\<close>

theorem chunk_nonpositive_size:
  assumes "chunkedMTU this = Number (Fin s)" and "s \<le> 0"
  shows "(P = [] \<longrightarrow>
            chunk this P =
              Some ([], this\<lparr>chunkedCount := Number (js_add (ToNumber (chunkedCount this)) (Fin 1))\<rparr>)) \<and>
         (P \<noteq> [] \<longrightarrow> chunk this P = None)"
proof (intro conjI impI)
  assume "P = []"
  then show "chunk this P =
      Some ([], this\<lparr>chunkedCount := Number (js_add (ToNumber (chunkedCount this)) (Fin 1))\<rparr>)"
    by (simp add: chunk_def chunk_loop.simps size_of_def Let_def)
next
  assume "P \<noteq> []"
  with assms have "chunk_loop this P t [] (Fin 0) (Fin 0) = None" for t
    by (intro chunk_loop_diverges) simp_all
  then show "chunk this P = None"
    by (simp add: chunk_def Let_def)
qed

theorem chunk_nonpositive_size_witness:
  "chunk (constructor\<lparr>chunkedMTU := Number (Fin (- 1)), chunkedCount := Number (Fin 7)\<rparr>) [] =
     Some ([], constructor\<lparr>chunkedMTU := Number (Fin (- 1)), chunkedCount := Number (Fin 8)\<rparr>) \<and>
   chunk (constructor\<lparr>chunkedMTU := Number (Fin 0), chunkedCount := Number (Fin 7)\<rparr>) [1, 2] = None"
  using chunk_nonpositive_size
          [of "constructor\<lparr>chunkedMTU := Number (Fin (- 1)), chunkedCount := Number (Fin 7)\<rparr>" "- 1" "[]"]
        chunk_nonpositive_size
          [of "constructor\<lparr>chunkedMTU := Number (Fin 0), chunkedCount := Number (Fin 7)\<rparr>" 0 "[1, 2]"]
  by (simp add: constructor_def)

end
